theory Spec2Isabelle
  imports Main
begin

section \<open>Python values as the program sees them\<close>

text \<open>
  The program is \<^verbatim>\<open>src/docker/ParsePatientRecords.py\<close>. It uses the print function
  with a \<^verbatim>\<open>file=\<close> argument, which Python 2 does not compile, and renders a list of
  strings as \<^verbatim>\<open>['Lee']\<close>: it is read under Python 3 throughout.

  A document returned by \<^verbatim>\<open>json.loads\<close> is a tree of Python objects. A string is the
  list of the bytes of its UTF-8 encoding, a lone surrogate code point (which an escape
  of a JSON text can produce) standing as its three-byte form. A float is carried by its
  \<^verbatim>\<open>repr\<close>, which is all the program ever observes of it (its rendering, and whether
  it is zero). A dict is an association list in insertion order, looked up with
  \<open>map_of\<close>.
\<close>

datatype exn =
  ValueError | KeyError | IndexError | TypeError | AttributeError | NameError
  | OSError | UnicodeEncodeError | ClientError

datatype pyval =
  PNone
  | PBool bool
  | PInt int
  | PFloat string
  | PStr string
  | PList "pyval list"
  | PDict "(string \<times> pyval) list"

text \<open>Sequencing of steps that may raise: the first exception ends the computation.\<close>

definition then_do :: "exn + 'a \<Rightarrow> ('a \<Rightarrow> exn + 'b) \<Rightarrow> exn + 'b" where
  "then_do m f = (case m of Inl e \<Rightarrow> Inl e | Inr x \<Rightarrow> f x)"

subsection \<open>What the program is given\<close>

text \<open>
  The libraries and collaborators of the program are parameters, collected in one
  record:
  \<^item> \<open>loads\<close>: \<^verbatim>\<open>json.loads\<close>, from a text to the parsed document or the exception
    of the parser (for a file, together with reading and decoding it);
  \<^item> \<open>str_lower\<close>: \<^verbatim>\<open>str.lower\<close> on a text that holds a character outside ASCII
    (on ASCII text the model lowers the letters itself);
  \<^item> \<open>isprintable\<close>: whether \<^verbatim>\<open>repr\<close> keeps a code point outside ASCII as it is,
    given by its UTF-8 bytes;
  \<^item> \<open>can_create\<close>: whether \<^verbatim>\<open>open(path, 'w')\<close> succeeds for a path (it raises
    for the empty path, a missing directory, a missing permission);
  \<^item> \<open>encodable\<close>: whether the encoding of a text file, which
    \<^verbatim>\<open>open(path, 'w')\<close> takes from the locale, can encode a text that holds a
    character outside ASCII (ASCII text it always can);
  \<^item> the object store: \<open>download_file\<close> gives the content of an object or raises,
    \<open>upload_file\<close> says whether the upload of a key raises;
  \<^item> the queue: what the poll number \<open>n\<close> receives, and whether
    \<^verbatim>\<open>change_visibility\<close> and \<^verbatim>\<open>delete\<close> raise for the message of a handle.
\<close>

record message =
  handle :: nat
  body :: string

record env =
  loads :: "string \<Rightarrow> exn + pyval"
  str_lower :: "string \<Rightarrow> string"
  isprintable :: "string \<Rightarrow> bool"
  can_create :: "string \<Rightarrow> bool"
  encodable :: "string \<Rightarrow> bool"
  download_file :: "string \<Rightarrow> exn + string"
  upload_file :: "string \<Rightarrow> exn option"
  receive_messages :: "nat \<Rightarrow> exn + message list"
  change_visibility :: "nat \<Rightarrow> exn option"
  delete :: "nat \<Rightarrow> exn option"

subsection \<open>Operations on objects\<close>

text \<open>\<^verbatim>\<open>x.get(key, default)\<close>: only a dict has the method.\<close>

fun py_get :: "pyval \<Rightarrow> string \<Rightarrow> pyval \<Rightarrow> exn + pyval" where
  "py_get (PDict kvs) k d = Inr (case map_of kvs k of None \<Rightarrow> d | Some v \<Rightarrow> v)"
| "py_get _ k d = Inl AttributeError"

text \<open>\<^verbatim>\<open>x['key']\<close>: a dict raises KeyError for an absent key; nothing else takes a string.\<close>

fun py_item :: "pyval \<Rightarrow> string \<Rightarrow> exn + pyval" where
  "py_item (PDict kvs) k = (case map_of kvs k of None \<Rightarrow> Inl KeyError | Some v \<Rightarrow> Inr v)"
| "py_item _ k = Inl TypeError"

text \<open>
  The number of bytes of the UTF-8 sequence that a leading byte opens: \<^verbatim>\<open>s[0]\<close> of
  a Python string is its first code point.
\<close>

definition utf8_len :: "char \<Rightarrow> nat" where
  "utf8_len c =
     (let n = (of_char c :: nat) in
      if n < 192 then 1 else if n < 224 then 2 else if n < 240 then 3 else 4)"

text \<open>
  \<^verbatim>\<open>x[0]\<close>. A dict built by \<^verbatim>\<open>json.loads\<close> has string keys only, so the key
  \<^verbatim>\<open>0\<close> is never present.
\<close>

fun py_index0 :: "pyval \<Rightarrow> exn + pyval" where
  "py_index0 (PList []) = Inl IndexError"
| "py_index0 (PList (x # xs)) = Inr x"
| "py_index0 (PStr []) = Inl IndexError"
| "py_index0 (PStr (c # cs)) = Inr (PStr (c # take (utf8_len c - 1) cs))"
| "py_index0 (PDict kvs) = Inl KeyError"
| "py_index0 _ = Inl TypeError"

text \<open>
  \<^verbatim>\<open>x.lower()\<close>: only a string has the method. On ASCII text the letters A to Z are
  lowered; a text with a byte from 128 up goes through \<open>str_lower\<close>.
\<close>

definition is_ascii :: "char \<Rightarrow> bool" where
  "is_ascii c = ((of_char c :: nat) < 128)"

definition lower_char :: "char \<Rightarrow> char" where
  "lower_char c =
     (let n = (of_char c :: nat) in if 65 \<le> n \<and> n \<le> 90 then char_of (n + 32) else c)"

fun py_lower :: "env \<Rightarrow> pyval \<Rightarrow> exn + pyval" where
  "py_lower ev (PStr s) =
     Inr (PStr (if list_all is_ascii s then map lower_char s else str_lower ev s))"
| "py_lower ev _ = Inl AttributeError"

text \<open>Truth value of an object, as \<^verbatim>\<open>not resource\<close> tests it.\<close>

fun truthy :: "pyval \<Rightarrow> bool" where
  "truthy PNone = False"
| "truthy (PBool b) = b"
| "truthy (PInt i) = (i \<noteq> 0)"
| "truthy (PFloat r) = (r \<noteq> ''0.0'' \<and> r \<noteq> ''-0.0'')"
| "truthy (PStr s) = (s \<noteq> [])"
| "truthy (PList xs) = (xs \<noteq> [])"
| "truthy (PDict kvs) = (kvs \<noteq> [])"

text \<open>
  Iterating an object in a \<^verbatim>\<open>for\<close> loop: a list gives its elements, a dict its keys,
  a string its characters; nothing else is iterable.
\<close>

fun py_chars :: "string \<Rightarrow> string list" where
  "py_chars [] = []"
| "py_chars (c # cs) = (c # take (utf8_len c - 1) cs) # py_chars (drop (utf8_len c - 1) cs)"

fun py_iter :: "pyval \<Rightarrow> exn + pyval list" where
  "py_iter (PList xs) = Inr xs"
| "py_iter (PDict kvs) = Inr (map (\<lambda>kv. PStr (fst kv)) kvs)"
| "py_iter (PStr s) = Inr (map PStr (py_chars s))"
| "py_iter _ = Inl TypeError"

subsection \<open>Rendering: \<^verbatim>\<open>str\<close> and \<^verbatim>\<open>repr\<close>\<close>

definition digit_char :: "nat \<Rightarrow> char" where
  "digit_char n = ''0123456789abcdef'' ! n"

fun decimal :: "nat \<Rightarrow> string" where
  "decimal n = (if n < 10 then [digit_char n] else decimal (n div 10) @ [digit_char (n mod 10)])"

declare decimal.simps [simp del]

definition str_int :: "int \<Rightarrow> string" where
  "str_int i = (if i < 0 then CHR ''-'' # decimal (nat (- i)) else decimal (nat i))"

text \<open>The last \<open>w\<close> hexadecimal digits of a number.\<close>

fun hex_digits :: "nat \<Rightarrow> nat \<Rightarrow> string" where
  "hex_digits 0 n = []"
| "hex_digits (Suc w) n = hex_digits w (n div 16) @ [digit_char (n mod 16)]"

text \<open>The code point that a UTF-8 sequence of one to four bytes encodes.\<close>

definition codepoint :: "string \<Rightarrow> nat" where
  "codepoint cp =
     (case map of_char cp of
        [a] \<Rightarrow> a
      | [a, b] \<Rightarrow> (a - 192) * 64 + (b - 128)
      | [a, b, c] \<Rightarrow> (a - 224) * 4096 + (b - 128) * 64 + (c - 128)
      | [a, b, c, d] \<Rightarrow> (a - 240) * 262144 + (b - 128) * 4096 + (c - 128) * 64 + (d - 128)
      | _ \<Rightarrow> 0)"

text \<open>
  \<^verbatim>\<open>repr\<close> of a string: single quotes, unless the text holds a single quote and no
  double quote. Of the ASCII characters the quote and the backslash are escaped, tab,
  newline and carriage return are written \<^verbatim>\<open>\t \n \r\<close>, the other control characters
  \<^verbatim>\<open>\xNN\<close>. A code point outside ASCII is kept when it is printable and written
  \<^verbatim>\<open>\xNN\<close>, \<^verbatim>\<open>\uNNNN\<close> or \<^verbatim>\<open>\UNNNNNNNN\<close> otherwise.
\<close>

definition repr_char :: "char \<Rightarrow> char \<Rightarrow> string" where
  "repr_char q c =
     (let n = (of_char c :: nat) in
      if c = q \<or> n = 92 then [CHR 0x5C, c]
      else if n = 9 then [CHR 0x5C, CHR ''t'']
      else if n = 10 then [CHR 0x5C, CHR ''n'']
      else if n = 13 then [CHR 0x5C, CHR ''r'']
      else if n < 32 \<or> n = 127 then CHR 0x5C # CHR ''x'' # hex_digits 2 n
      else [c])"

definition repr_escape :: "nat \<Rightarrow> string" where
  "repr_escape n =
     (if n < 256 then CHR 0x5C # CHR ''x'' # hex_digits 2 n
      else if n < 65536 then CHR 0x5C # CHR ''u'' # hex_digits 4 n
      else CHR 0x5C # CHR ''U'' # hex_digits 8 n)"

definition repr_codepoint :: "env \<Rightarrow> char \<Rightarrow> string \<Rightarrow> string" where
  "repr_codepoint ev q cp =
     (case cp of
        [c] \<Rightarrow> if is_ascii c then repr_char q c
               else if isprintable ev cp then cp else repr_escape (codepoint cp)
      | _ \<Rightarrow> if isprintable ev cp then cp else repr_escape (codepoint cp))"

definition repr_str :: "env \<Rightarrow> string \<Rightarrow> string" where
  "repr_str ev s =
     (let q = (if CHR 0x27 \<in> set s \<and> CHR 0x22 \<notin> set s then CHR 0x22 else CHR 0x27)
      in q # concat (map (repr_codepoint ev q) (py_chars s)) @ [q])"

fun comma_join :: "string list \<Rightarrow> string" where
  "comma_join [] = []"
| "comma_join [x] = x"
| "comma_join (x # y # ys) = x @ '', '' @ comma_join (y # ys)"

fun py_repr :: "env \<Rightarrow> pyval \<Rightarrow> string"
  and repr_items :: "env \<Rightarrow> pyval list \<Rightarrow> string list"
  and repr_pairs :: "env \<Rightarrow> (string \<times> pyval) list \<Rightarrow> string list" where
  "py_repr ev PNone = ''None''"
| "py_repr ev (PBool b) = (if b then ''True'' else ''False'')"
| "py_repr ev (PInt i) = str_int i"
| "py_repr ev (PFloat r) = r"
| "py_repr ev (PStr s) = repr_str ev s"
| "py_repr ev (PList xs) = ''['' @ comma_join (repr_items ev xs) @ '']''"
| "py_repr ev (PDict kvs) = ''{'' @ comma_join (repr_pairs ev kvs) @ ''}''"
| "repr_items ev [] = []"
| "repr_items ev (x # xs) = py_repr ev x # repr_items ev xs"
| "repr_pairs ev [] = []"
| "repr_pairs ev ((k, v) # kvs) = (repr_str ev k @ '': '' @ py_repr ev v) # repr_pairs ev kvs"

section \<open>\<^verbatim>\<open>parse_patient_data\<close>: from the bundle to the rows\<close>

text \<open>
  Lines 69 and 74 print a diagnostic built from \<^verbatim>\<open>(url, in_file)\<close>. No name
  \<^verbatim>\<open>in_file\<close> is bound in the function (its parameter is \<^verbatim>\<open>input_file\<close>) or at
  module level, so evaluating the argument of \<^verbatim>\<open>print\<close> raises NameError before
  anything is printed and before the \<^verbatim>\<open>continue\<close> that follows.
\<close>

definition in_file :: "exn + pyval" where
  "in_file = Inl NameError"

definition print_diagnostic :: "string \<Rightarrow> pyval \<Rightarrow> exn + unit" where
  "print_diagnostic msg url = then_do in_file (\<lambda>f. Inr ())"

text \<open>What one pass of the loop body (lines 66 to 88) does with an entry.\<close>

datatype step = Continue | Append "pyval list"

definition entry_step :: "env \<Rightarrow> pyval \<Rightarrow> exn + step" where
  "entry_step ev entry =
     then_do (py_get entry ''fullUrl'' (PStr [])) (\<lambda>url.
     then_do (py_get entry ''resource'' (PDict [])) (\<lambda>resource.
     if \<not> truthy resource
     then then_do (print_diagnostic ''resource not found for url'' url) (\<lambda>u. Inr Continue)
     else
     then_do (then_do (py_get resource ''resourceType'' (PStr [])) (py_lower ev)) (\<lambda>resource_type.
     if resource_type \<noteq> PStr ''patient''
     then then_do (print_diagnostic ''resource type is not patient for url'' url) (\<lambda>u. Inr Continue)
     else
     then_do (py_get resource ''id'' (PStr [])) (\<lambda>resource_id.
     then_do (then_do (py_get resource ''meta'' (PDict []))
                (\<lambda>m. py_get m ''lastUpdated'' (PStr []))) (\<lambda>last_updated.
     then_do (then_do (then_do (py_get resource ''text'' (PDict []))
                (\<lambda>t. py_get t ''status'' (PStr []))) (py_lower ev)) (\<lambda>status.
     then_do (then_do (py_get resource ''text'' (PDict []))
                (\<lambda>t. py_get t ''value'' PNone)) (\<lambda>system_id.
     then_do (py_get resource ''active'' (PBool False)) (\<lambda>active.
     then_do (then_do (then_do (then_do (py_get resource ''name'' (PDict [])) py_index0)
                (\<lambda>n. py_get n ''given'' (PList [PStr []]))) py_index0) (\<lambda>first_name.
     then_do (then_do (then_do (py_get resource ''name'' (PDict [])) py_index0)
                (\<lambda>n. py_get n ''family'' (PList [PStr []]))) (\<lambda>last_name.
     then_do (then_do (then_do (py_get resource ''telecom'' (PList [PDict []])) py_index0)
                (\<lambda>t. py_get t ''value'' (PStr []))) (\<lambda>phone.
     then_do (py_get resource ''gender'' (PStr [])) (\<lambda>gender.
     then_do (then_do (then_do (py_get resource ''address'' (PList [PDict []])) py_index0)
                (\<lambda>a. py_get a ''value'' (PStr []))) (\<lambda>address.
     Inr (Append [url, resource_id, last_updated, status, system_id, active,
                  first_name, last_name, phone, gender, address]))))))))))))))"

text \<open>The loop over the entries, with the list \<^verbatim>\<open>rows\<close> it appends to.\<close>

fun collect_rows :: "env \<Rightarrow> pyval list \<Rightarrow> pyval list list \<Rightarrow> exn + pyval list list" where
  "collect_rows ev [] rows = Inr rows"
| "collect_rows ev (entry # entries) rows =
     (case entry_step ev entry of
        Inl e \<Rightarrow> Inl e
      | Inr Continue \<Rightarrow> collect_rows ev entries rows
      | Inr (Append row) \<Rightarrow> collect_rows ev entries (rows @ [row]))"

text \<open>Lines 65 to 88 on the parsed document \<^verbatim>\<open>data\<close>.\<close>

definition extract_rows :: "env \<Rightarrow> pyval \<Rightarrow> exn + pyval list list" where
  "extract_rows ev data =
     then_do (py_get data ''entry'' (PList [])) (\<lambda>es.
     then_do (py_iter es) (\<lambda>entries. collect_rows ev entries []))"

section \<open>The CSV writer\<close>

text \<open>
  Lines 90 to 94 hand the rows to \<^verbatim>\<open>csv.writer\<close> with the \<^verbatim>\<open>excel\<close> dialect:
  delimiter comma, quote character \<^verbatim>\<open>"\<close>, doubled quotes, minimal quoting, line
  terminator CR LF. The writer renders \<^verbatim>\<open>None\<close> as the empty text, a string as
  itself and anything else through \<^verbatim>\<open>str\<close>. It quotes a field that holds the
  delimiter, the quote character or a character of the line terminator, and writes a row
  made of one empty field as \<^verbatim>\<open>""\<close>. The file is opened in text mode on a POSIX
  system (the program runs in a container and writes under \<^verbatim>\<open>/processed\<close>), where
  no newline is translated.
\<close>

definition CR :: char where
  "CR = CHR 0x0D"

definition LF :: char where
  "LF = CHR 0x0A"

definition DQ :: char where
  "DQ = CHR 0x22"

definition field_text :: "env \<Rightarrow> pyval \<Rightarrow> string" where
  "field_text ev v = (case v of PNone \<Rightarrow> [] | PStr s \<Rightarrow> s | _ \<Rightarrow> py_repr ev v)"

definition special :: "char \<Rightarrow> bool" where
  "special c = (c = CHR '','' \<or> c = DQ \<or> c = CR \<or> c = LF)"

fun double_quotes :: "string \<Rightarrow> string" where
  "double_quotes [] = []"
| "double_quotes (c # cs) = (if c = DQ then DQ # DQ # double_quotes cs else c # double_quotes cs)"

definition write_field :: "string \<Rightarrow> string" where
  "write_field s = (if list_ex special s then DQ # double_quotes s @ [DQ] else s)"

fun join_fields :: "string list \<Rightarrow> string" where
  "join_fields [] = []"
| "join_fields [f] = f"
| "join_fields (f # g # gs) = f @ CHR '','' # join_fields (g # gs)"

definition writerow :: "env \<Rightarrow> pyval list \<Rightarrow> string" where
  "writerow ev row =
     (let fs = map (field_text ev) row
      in (if fs = [[]] then [DQ, DQ] else join_fields (map write_field fs)) @ [CR, LF])"

definition header :: "string list" where
  "header = [''url'', ''resource_id'', ''last_updated'', ''status'', ''system_id'', ''active'',
             ''first_name'', ''last_name'', ''phone'', ''gender'', ''address'']"

text \<open>The text of the header row and of the rows, one line each.\<close>

definition csv_lines :: "env \<Rightarrow> pyval list list \<Rightarrow> string list" where
  "csv_lines ev rows = map (writerow ev) (map PStr header # rows)"

definition csv_text :: "env \<Rightarrow> pyval list list \<Rightarrow> string" where
  "csv_text ev rows = concat (csv_lines ev rows)"

section \<open>Local storage\<close>

text \<open>
  Local storage is a finite map from files to their contents. A file is named by its
  path with empty components and \<^verbatim>\<open>.\<close> components taken out, so that
  \<^verbatim>\<open>/processed//x.csv\<close> and \<^verbatim>\<open>/processed/x.csv\<close> are one file; \<^verbatim>\<open>..\<close>
  components and the working directory are not resolved. Removing a file fails exactly
  when it is absent. Whether a file can be created is the parameter \<open>can_create\<close>.
\<close>

type_synonym storage = "string \<rightharpoonup> string"

fun split_slash :: "string \<Rightarrow> string \<Rightarrow> string list" where
  "split_slash cur [] = [cur]"
| "split_slash cur (c # cs) =
     (if c = CHR ''/'' then cur # split_slash [] cs else split_slash (cur @ [c]) cs)"

fun join_slash :: "string list \<Rightarrow> string" where
  "join_slash [] = []"
| "join_slash [x] = x"
| "join_slash (x # y # ys) = x @ CHR ''/'' # join_slash (y # ys)"

definition canonical :: "string \<Rightarrow> string" where
  "canonical p =
     (let names = filter (\<lambda>n. n \<noteq> [] \<and> n \<noteq> ''.'') (split_slash [] p)
      in if p \<noteq> [] \<and> hd p = CHR ''/'' then CHR ''/'' # join_slash names else join_slash names)"

text \<open>
  The file is written one \<^verbatim>\<open>write\<close> per row, each encoding its text. Where a row
  cannot be encoded its \<^verbatim>\<open>write\<close> raises UnicodeEncodeError, and the rows written
  before it are in the file when the \<^verbatim>\<open>with\<close> statement closes it.
\<close>

definition can_encode :: "env \<Rightarrow> string \<Rightarrow> bool" where
  "can_encode ev l = (list_all is_ascii l \<or> encodable ev l)"

fun write_lines :: "env \<Rightarrow> string list \<Rightarrow> string \<Rightarrow> exn option \<times> string" where
  "write_lines ev [] written = (None, written)"
| "write_lines ev (l # ls) written =
     (if can_encode ev l then write_lines ev ls (written @ l)
      else (Some UnicodeEncodeError, written))"

text \<open>Lines 90 to 94: \<open>None\<close> when the file has been written, else the exception.\<close>

definition write_csv ::
  "env \<Rightarrow> string \<Rightarrow> pyval list list \<Rightarrow> storage \<Rightarrow> exn option \<times> storage" where
  "write_csv ev output_file rows fs =
     (if \<not> can_create ev output_file then (Some OSError, fs)
      else case write_lines ev (csv_lines ev rows) [] of
        (r, written) \<Rightarrow> (r, fs(canonical output_file \<mapsto> written)))"

section \<open>\<^verbatim>\<open>parse_patient_data\<close>\<close>

text \<open>
  Lines 61 to 94. When an exception leaves the function before line 90 the output file
  has not been opened, and local storage is as it was.
\<close>

definition parse_patient_data ::
  "env \<Rightarrow> string \<Rightarrow> string \<Rightarrow> storage \<Rightarrow> exn option \<times> storage" where
  "parse_patient_data ev input_file output_file fs =
     (case (case fs (canonical input_file) of
              None \<Rightarrow> Inr []
            | Some content \<Rightarrow> then_do (loads ev content) (extract_rows ev)) of
        Inl e \<Rightarrow> (Some e, fs)
      | Inr rows \<Rightarrow> write_csv ev output_file rows fs)"

text \<open>
  The bundle of the concrete scenario:
  \<^verbatim>\<open>{"entry":[{"fullUrl":"u1","resource":{"resourceType":"Patient","id":"p1",
  "active":true,"gender":"female","name":[{"given":["Ann"],"family":["Lee"]}],
  "telecom":[{"value":"555-1234"}],"address":[{"value":"1 Main St"}]}}]}\<close>
\<close>

definition scenario_bundle :: pyval where
  "scenario_bundle =
     PDict [(''entry'', PList [PDict
       [(''fullUrl'', PStr ''u1''),
        (''resource'', PDict
          [(''resourceType'', PStr ''Patient''),
           (''id'', PStr ''p1''),
           (''active'', PBool True),
           (''gender'', PStr ''female''),
           (''name'', PList [PDict [(''given'', PList [PStr ''Ann'']),
                                    (''family'', PList [PStr ''Lee''])]]),
           (''telecom'', PList [PDict [(''value'', PStr ''555-1234'')]]),
           (''address'', PList [PDict [(''value'', PStr ''1 Main St'')]])])]])]"

section \<open>A reader of comma-delimited text\<close>

text \<open>
  The program only writes CSV. To state that what it writes can be read back, this is a
  reader of the same format, as a machine over the characters of the text: fields are
  separated by commas, a field that opens with \<^verbatim>\<open>"\<close> runs to the next single
  \<^verbatim>\<open>"\<close> with \<^verbatim>\<open>""\<close> standing for one quote character, and outside quotes a CR,
  an LF or a CR LF pair ends the record.
\<close>

datatype mode =
  START_RECORD | START_FIELD | IN_FIELD | IN_QUOTED_FIELD | QUOTE_IN_QUOTED_FIELD | AFTER_CR

record reader =
  cur_mode :: mode
  cur_field :: string
  cur_fields :: "string list"
  done_records :: "string list list"

definition add_char :: "char \<Rightarrow> reader \<Rightarrow> reader" where
  "add_char c r = r\<lparr>cur_field := cur_field r @ [c]\<rparr>"

definition save_field :: "reader \<Rightarrow> reader" where
  "save_field r = r\<lparr>cur_fields := cur_fields r @ [cur_field r], cur_field := []\<rparr>"

definition end_record :: "char \<Rightarrow> reader \<Rightarrow> reader" where
  "end_record c r =
     r\<lparr>done_records := done_records r @ [cur_fields r], cur_fields := [],
       cur_mode := (if c = CR then AFTER_CR else START_RECORD)\<rparr>"

definition at_start_field :: "reader \<Rightarrow> char \<Rightarrow> reader" where
  "at_start_field r c =
     (if c = CR \<or> c = LF then end_record c (save_field r)
      else if c = DQ then r\<lparr>cur_mode := IN_QUOTED_FIELD\<rparr>
      else if c = CHR '','' then (save_field r)\<lparr>cur_mode := START_FIELD\<rparr>
      else (add_char c r)\<lparr>cur_mode := IN_FIELD\<rparr>)"

definition at_start_record :: "reader \<Rightarrow> char \<Rightarrow> reader" where
  "at_start_record r c = (if c = CR \<or> c = LF then end_record c r else at_start_field r c)"

definition reader_step :: "reader \<Rightarrow> char \<Rightarrow> reader" where
  "reader_step r c =
     (case cur_mode r of
        START_RECORD \<Rightarrow> at_start_record r c
      | AFTER_CR \<Rightarrow> if c = LF then r\<lparr>cur_mode := START_RECORD\<rparr> else at_start_record r c
      | START_FIELD \<Rightarrow> at_start_field r c
      | IN_FIELD \<Rightarrow>
          if c = CR \<or> c = LF then end_record c (save_field r)
          else if c = CHR '','' then (save_field r)\<lparr>cur_mode := START_FIELD\<rparr>
          else add_char c r
      | IN_QUOTED_FIELD \<Rightarrow>
          if c = DQ then r\<lparr>cur_mode := QUOTE_IN_QUOTED_FIELD\<rparr> else add_char c r
      | QUOTE_IN_QUOTED_FIELD \<Rightarrow>
          if c = DQ then (add_char c r)\<lparr>cur_mode := IN_QUOTED_FIELD\<rparr>
          else if c = CHR '','' then (save_field r)\<lparr>cur_mode := START_FIELD\<rparr>
          else if c = CR \<or> c = LF then end_record c (save_field r)
          else (add_char c r)\<lparr>cur_mode := IN_FIELD\<rparr>)"

definition reader_init :: reader where
  "reader_init = \<lparr>cur_mode = START_RECORD, cur_field = [], cur_fields = [], done_records = []\<rparr>"

definition reader_finish :: "reader \<Rightarrow> string list list" where
  "reader_finish r =
     (if cur_mode r = START_RECORD \<or> cur_mode r = AFTER_CR then done_records r
      else done_records r @ [cur_fields r @ [cur_field r]])"

definition csv_reader :: "string \<Rightarrow> string list list" where
  "csv_reader text = reader_finish (foldl reader_step reader_init text)"

section \<open>\<^verbatim>\<open>process_data\<close> and the worker loop\<close>

text \<open>
  What the program changes: local storage, the output bucket, the calls made on messages
  of the queue (in order), and the number of polls so far.
\<close>

datatype queue_call = ChangeVisibility nat nat | Delete nat

record world =
  files :: storage
  bucket :: "string \<rightharpoonup> string"
  calls :: "queue_call list"
  polls :: nat

definition output_dir :: string where
  "output_dir = ''/processed''"

text \<open>\<^verbatim>\<open>os.path.basename\<close>, \<^verbatim>\<open>os.path.splitext(p)[0]\<close> and \<^verbatim>\<open>os.path.join\<close> of POSIX.\<close>

definition basename :: "string \<Rightarrow> string" where
  "basename p = rev (takeWhile (\<lambda>c. c \<noteq> CHR ''/'') (rev p))"

definition splitext_root :: "string \<Rightarrow> string" where
  "splitext_root p =
     (let name = basename p;
          dir = take (length p - length name) p;
          stem = rev (drop 1 (dropWhile (\<lambda>c. c \<noteq> CHR ''.'') (rev name)))
      in if CHR ''.'' \<in> set name \<and> list_ex (\<lambda>c. c \<noteq> CHR ''.'') stem then dir @ stem else p)"

definition path_join :: "string \<Rightarrow> string \<Rightarrow> string" where
  "path_join a b =
     (if b \<noteq> [] \<and> hd b = CHR ''/'' then b
      else if a = [] \<or> last a = CHR ''/'' then a @ b
      else a @ ''/'' @ b)"

definition os_remove :: "string \<Rightarrow> storage \<Rightarrow> exn + storage" where
  "os_remove p fs =
     (case fs (canonical p) of
        None \<Rightarrow> Inl OSError
      | Some c \<Rightarrow> Inr (fs(canonical p := None)))"

text \<open>
  Lines 126 to 128. A step that fails returns its exception with the state reached so
  far: a file removed before the failure stays removed.
\<close>

definition cleanup_files :: "string \<Rightarrow> string \<Rightarrow> storage \<Rightarrow> exn option \<times> storage" where
  "cleanup_files input_file output_file fs =
     (case os_remove input_file fs of
        Inl e \<Rightarrow> (Some e, fs)
      | Inr fs1 \<Rightarrow>
          (case os_remove (output_dir @ ''/'' @ output_file) fs1 of
             Inl e \<Rightarrow> (Some e, fs1)
           | Inr fs2 \<Rightarrow> (None, fs2)))"

text \<open>Lines 130 and 131: the local file goes to the output bucket under its base name.\<close>

definition upload_data :: "env \<Rightarrow> string \<Rightarrow> world \<Rightarrow> exn option \<times> world" where
  "upload_data ev output_file w =
     (case files w (canonical output_file) of
        None \<Rightarrow> (Some OSError, w)
      | Some content \<Rightarrow>
          (case upload_file ev (basename output_file) of
             Some e \<Rightarrow> (Some e, w)
           | None \<Rightarrow> (None, w\<lparr>bucket := (bucket w)(basename output_file \<mapsto> content)\<rparr>)))"

text \<open>
  Two expressions of lines 112 to 116 raise whenever they are evaluated. The module
  \<^verbatim>\<open>urllib\<close> of Python 3 has no attribute \<^verbatim>\<open>unquote_plus\<close> (the function lives in
  \<^verbatim>\<open>urllib.parse\<close>), so line 112 raises AttributeError as soon as the callee is looked
  up, before its argument is evaluated. In line 116 the key is a byte string, the result
  of \<^verbatim>\<open>encode\<close>, and adding the string \<^verbatim>\<open>'.csv'\<close> to it raises TypeError.
\<close>

definition urllib_unquote_plus :: "exn + (string \<Rightarrow> string)" where
  "urllib_unquote_plus = Inl AttributeError"

definition bytes_add_str :: "string \<Rightarrow> string \<Rightarrow> exn + string" where
  "bytes_add_str b s = Inl TypeError"

text \<open>
  \<^verbatim>\<open>message_content['Records'][0]['s3']['object']['key']\<close>, then the call and
  \<^verbatim>\<open>encode('utf-8')\<close>, which cannot encode a lone surrogate (the byte 237 followed
  by a byte from 160 up).
\<close>

fun has_surrogate :: "string \<Rightarrow> bool" where
  "has_surrogate (a # b # cs) =
     (((of_char a :: nat) = 237 \<and> (of_char b :: nat) \<ge> 160) \<or> has_surrogate (b # cs))"
| "has_surrogate _ = False"

definition object_key :: "pyval \<Rightarrow> (string \<Rightarrow> string) \<Rightarrow> exn + string" where
  "object_key message_content unquote_plus =
     then_do (py_item message_content ''Records'') (\<lambda>records.
     then_do (py_index0 records) (\<lambda>record.
     then_do (py_item record ''s3'') (\<lambda>s3.
     then_do (py_item s3 ''object'') (\<lambda>obj.
     then_do (py_item obj ''key'') (\<lambda>key.
     case key of
       PStr k \<Rightarrow>
         if has_surrogate (unquote_plus k) then Inl UnicodeEncodeError
         else Inr (unquote_plus k)
     | _ \<Rightarrow> Inl TypeError)))))"

text \<open>
  The body of the \<^verbatim>\<open>try\<close>, lines 111 to 119, in the order of evaluation: \<open>None\<close>
  when it completes, else the exception and the state reached.
\<close>

definition try_body :: "env \<Rightarrow> message \<Rightarrow> world \<Rightarrow> exn option \<times> world" where
  "try_body ev m w =
     (case loads ev (body m) of
        Inl e \<Rightarrow> (Some e, w)
      | Inr message_content \<Rightarrow>
     (case urllib_unquote_plus of
        Inl e \<Rightarrow> (Some e, w)
      | Inr unquote_plus \<Rightarrow>
     (case object_key message_content unquote_plus of
        Inl e \<Rightarrow> (Some e, w)
      | Inr input_file \<Rightarrow>
     (case download_file ev input_file of
        Inl e \<Rightarrow> (Some e, w)
      | Inr content \<Rightarrow>
     (let w1 = w\<lparr>files := (files w)(canonical input_file \<mapsto> content)\<rparr>
      in case bytes_add_str (splitext_root input_file) ''.csv'' of
        Inl e \<Rightarrow> (Some e, w1)
      | Inr name \<Rightarrow>
     (let output_file = path_join output_dir name
      in case parse_patient_data ev input_file output_file (files w1) of
        (Some e, fs2) \<Rightarrow> (Some e, w1\<lparr>files := fs2\<rparr>)
      | (None, fs2) \<Rightarrow>
     (case upload_data ev output_file (w1\<lparr>files := fs2\<rparr>) of
        (Some e, w3) \<Rightarrow> (Some e, w3)
      | (None, w3) \<Rightarrow>
     (case cleanup_files input_file output_file (files w3) of
        (r, fs4) \<Rightarrow> (r, w3\<lparr>files := fs4\<rparr>)))))))))"

text \<open>
  One pass of the loop of lines 109 to 124: the \<^verbatim>\<open>except\<close> clause catches whatever
  the body raised and calls \<^verbatim>\<open>change_visibility\<close>, the \<^verbatim>\<open>else\<close> clause calls
  \<^verbatim>\<open>delete\<close>. Neither call is inside a \<^verbatim>\<open>try\<close>: an exception of theirs leaves
  the loop, and is the first component of the result.
\<close>

definition process_item :: "env \<Rightarrow> message \<Rightarrow> world \<Rightarrow> exn option \<times> world" where
  "process_item ev m w =
     (case try_body ev m w of
        (Some e, w1) \<Rightarrow>
          (change_visibility ev (handle m),
           w1\<lparr>calls := calls w1 @ [ChangeVisibility (handle m) 0]\<rparr>)
      | (None, w1) \<Rightarrow>
          (delete ev (handle m), w1\<lparr>calls := calls w1 @ [Delete (handle m)]\<rparr>))"

fun process_batch :: "env \<Rightarrow> message list \<Rightarrow> world \<Rightarrow> exn option \<times> world" where
  "process_batch ev [] w = (None, w)"
| "process_batch ev (m # ms) w =
     (case process_item ev m w of
        (Some e, w1) \<Rightarrow> (Some e, w1)
      | (None, w1) \<Rightarrow> process_batch ev ms w1)"

text \<open>
  Lines 133 to 140 run in the header of the \<^verbatim>\<open>for\<close> statement, outside the
  \<^verbatim>\<open>try\<close>.
\<close>

definition get_messages_from_sqs :: "env \<Rightarrow> world \<Rightarrow> (exn + message list) \<times> world" where
  "get_messages_from_sqs ev w = (receive_messages ev (polls w), w\<lparr>polls := Suc (polls w)\<rparr>)"

definition process_data :: "env \<Rightarrow> world \<Rightarrow> exn option \<times> world" where
  "process_data ev w =
     (case get_messages_from_sqs ev w of
        (Inl e, w1) \<Rightarrow> (Some e, w1)
      | (Inr ms, w1) \<Rightarrow> process_batch ev ms w1)"

text \<open>
  The loop \<^verbatim>\<open>while True: process_data()\<close> of \<^verbatim>\<open>main\<close>, cut after \<open>n\<close> passes.
  \<open>Some e\<close>: the exception \<open>e\<close> left the loop and ended the process. \<open>None\<close>: the
  loop is still running after \<open>n\<close> passes; it has no exit of its own.
\<close>

fun worker_loop :: "env \<Rightarrow> nat \<Rightarrow> world \<Rightarrow> exn option \<times> world" where
  "worker_loop ev 0 w = (None, w)"
| "worker_loop ev (Suc n) w =
     (case process_data ev w of
        (Some e, w1) \<Rightarrow> (Some e, w1)
      | (None, w1) \<Rightarrow> worker_loop ev n w1)"

section \<open>Concrete inputs\<close>

text \<open>
  Inputs at which the program is run further down. The notification is the event of the
  object store for the key \<^verbatim>\<open>x.json\<close>:
  \<^verbatim>\<open>{"Records":[{"s3":{"object":{"key":"x.json"}}}]}\<close>.
  In \<open>demo_env\<close> nothing that is given to the program fails: the text
  \<^verbatim>\<open>notification\<close> parses to that event and every other text to the bundle of the
  scenario, every file can be created, every download, upload and queue call succeeds,
  and poll \<open>n\<close> receives one message with handle \<open>n\<close>. \<open>reading data ok\<close> is
  \<open>demo_env\<close> with a parser that reads every text as \<open>data\<close>, and where a file
  can be created when \<open>ok\<close> holds.
\<close>

definition notification :: pyval where
  "notification =
     PDict [(''Records'', PList [PDict [(''s3'', PDict [(''object'',
       PDict [(''key'', PStr ''x.json'')])])]])]"

definition demo_env :: env where
  "demo_env =
     \<lparr>loads = (\<lambda>t. if t = ''notification'' then Inr notification else Inr scenario_bundle),
      str_lower = (\<lambda>s. s),
      isprintable = (\<lambda>cp. True),
      can_create = (\<lambda>p. True),
      encodable = (\<lambda>l. True),
      download_file = (\<lambda>k. Inr ''bundle''),
      upload_file = (\<lambda>k. None),
      receive_messages = (\<lambda>n. Inr [\<lparr>handle = n, body = ''notification''\<rparr>]),
      change_visibility = (\<lambda>h. None),
      delete = (\<lambda>h. None)\<rparr>"

definition reading :: "pyval \<Rightarrow> bool \<Rightarrow> env" where
  "reading data ok = demo_env\<lparr>loads := (\<lambda>t. Inr data), can_create := (\<lambda>p. ok)\<rparr>"

definition failing_queue_env :: env where
  "failing_queue_env = demo_env\<lparr>receive_messages := (\<lambda>n. Inl ClientError)\<rparr>"

definition failing_download_env :: env where
  "failing_download_env = demo_env\<lparr>download_file := (\<lambda>k. Inl ClientError)\<rparr>"


definition empty_world :: world where
  "empty_world = \<lparr>files = Map.empty, bucket = Map.empty, calls = [], polls = 0\<rparr>"

definition bundle_of :: "pyval list \<Rightarrow> pyval" where
  "bundle_of entries = PDict [(''entry'', PList entries)]"

definition patient_without_name :: pyval where
  "patient_without_name =
     PDict [(''fullUrl'', PStr ''u1''),
            (''resource'', PDict [(''resourceType'', PStr ''Patient''), (''id'', PStr ''p1'')])]"

definition patient_with_name_only :: pyval where
  "patient_with_name_only =
     PDict [(''fullUrl'', PStr ''u2''),
            (''resource'', PDict [(''resourceType'', PStr ''Patient''),
                                  (''name'', PList [PDict []])])]"

definition entry_without_resource :: pyval where
  "entry_without_resource = PDict [(''fullUrl'', PStr ''u3'')]"

definition observation_entry :: pyval where
  "observation_entry =
     PDict [(''fullUrl'', PStr ''u4''),
            (''resource'', PDict [(''resourceType'', PStr ''Observation'')])]"

text \<open>
  Local storage as it is when line 119 runs for the key \<^verbatim>\<open>x.json\<close>: the downloaded
  input and the output written under \<^verbatim>\<open>/processed\<close>.
\<close>

definition storage_before_cleanup :: storage where
  "storage_before_cleanup = [''x.json'' \<mapsto> ''bundle'', ''/processed/x.csv'' \<mapsto> ''csv'']"

section \<open>Reading back what the writer wrote\<close>

text \<open>
  The reader is followed through the text of the writer piece by piece: the characters
  of one field, the field with the comma or the line end after it, a row, all rows.
\<close>

lemma unquoted_run:
  "\<not> list_ex special s \<Longrightarrow> cur_mode r = IN_FIELD \<Longrightarrow>
     foldl reader_step r s = r\<lparr>cur_field := cur_field r @ s\<rparr>"
proof (induction s arbitrary: r)
  case Nil
  then show ?case by simp
next
  case (Cons c cs)
  from Cons.prems have nc: "\<not> special c" and cs: "\<not> list_ex special cs"
    by simp_all
  from nc have c: "c \<noteq> CR" "c \<noteq> LF" "c \<noteq> CHR '',''" "c \<noteq> DQ"
    by (simp_all add: special_def)
  have step: "reader_step r c = add_char c r"
    using c Cons.prems(2) by (simp add: reader_step_def)
  have "foldl reader_step (add_char c r) cs = (add_char c r)\<lparr>cur_field := cur_field (add_char c r) @ cs\<rparr>"
    using Cons.prems(2) by (intro Cons.IH[OF cs]) (simp add: add_char_def)
  then show ?case by (simp add: step add_char_def)
qed

lemma quoted_run:
  "cur_mode r = IN_QUOTED_FIELD \<Longrightarrow>
     foldl reader_step r (double_quotes s) = r\<lparr>cur_field := cur_field r @ s\<rparr>"
proof (induction s arbitrary: r)
  case Nil
  then show ?case by simp
next
  case (Cons c cs)
  let ?r = "add_char c r"
  have m: "cur_mode ?r = IN_QUOTED_FIELD" using Cons.prems by (simp add: add_char_def)
  have two: "foldl reader_step r (if c = DQ then [DQ, DQ] else [c]) = ?r"
    using Cons.prems by (simp add: reader_step_def add_char_def)
  have "foldl reader_step r (double_quotes (c # cs)) = foldl reader_step ?r (double_quotes cs)"
    using two by (cases "c = DQ") simp_all
  also have "\<dots> = ?r\<lparr>cur_field := cur_field ?r @ cs\<rparr>" by (rule Cons.IH[OF m])
  finally show ?case by (simp add: add_char_def)
qed


lemma csv_chars_distinct:
  "DQ \<noteq> CR" "DQ \<noteq> LF" "DQ \<noteq> CHR '',''" "CR \<noteq> LF" "CR \<noteq> CHR '',''" "LF \<noteq> CHR '',''"
  "CR \<noteq> DQ" "LF \<noteq> DQ" "CHR '','' \<noteq> DQ" "LF \<noteq> CR" "CHR '','' \<noteq> CR" "CHR '','' \<noteq> LF"
  by (simp_all add: DQ_def CR_def LF_def)

lemma step_comma:
  "cur_mode q \<noteq> IN_QUOTED_FIELD \<Longrightarrow> cur_mode q \<noteq> AFTER_CR \<Longrightarrow>
     reader_step q (CHR '','') = (save_field q)\<lparr>cur_mode := START_FIELD\<rparr>"
  by (cases "cur_mode q")
    (simp_all add: reader_step_def at_start_record_def at_start_field_def csv_chars_distinct)

lemma step_cr:
  "cur_mode q = START_FIELD \<or> cur_mode q = IN_FIELD \<or> cur_mode q = QUOTE_IN_QUOTED_FIELD \<Longrightarrow>
     reader_step q CR = end_record CR (save_field q)"
  by (auto simp: reader_step_def at_start_field_def csv_chars_distinct)

lemma step_lf_after_cr:
  "cur_mode q = AFTER_CR \<Longrightarrow> reader_step q LF = q\<lparr>cur_mode := START_RECORD\<rparr>"
  by (simp add: reader_step_def)

lemma step_open_quote:
  "cur_mode r = START_FIELD \<or> cur_mode r = START_RECORD \<Longrightarrow>
     reader_step r DQ = r\<lparr>cur_mode := IN_QUOTED_FIELD\<rparr>"
  by (auto simp: reader_step_def at_start_record_def at_start_field_def csv_chars_distinct)

lemma step_close_quote:
  "cur_mode q = IN_QUOTED_FIELD \<Longrightarrow> reader_step q DQ = q\<lparr>cur_mode := QUOTE_IN_QUOTED_FIELD\<rparr>"
  by (simp add: reader_step_def)

lemma step_first_plain:
  "cur_mode r = START_FIELD \<or> cur_mode r = START_RECORD \<Longrightarrow> \<not> special c \<Longrightarrow>
     reader_step r c = (add_char c r)\<lparr>cur_mode := IN_FIELD\<rparr>"
  by (auto simp: reader_step_def at_start_record_def at_start_field_def special_def)

lemma write_field_run:
  assumes "cur_field r = []"
    and "cur_mode r = START_FIELD \<or> cur_mode r = START_RECORD"
  shows "\<exists>m. foldl reader_step r (write_field s) = r\<lparr>cur_field := s, cur_mode := m\<rparr> \<and>
           (m = IN_FIELD \<or> m = QUOTE_IN_QUOTED_FIELD \<or> (m = cur_mode r \<and> write_field s = []))"
proof (cases "list_ex special s")
  case True
  let ?q = "r\<lparr>cur_mode := IN_QUOTED_FIELD\<rparr>"
  have body: "foldl reader_step ?q (double_quotes s) = ?q\<lparr>cur_field := cur_field ?q @ s\<rparr>"
    by (rule quoted_run) simp
  have "foldl reader_step r (write_field s) = r\<lparr>cur_field := s, cur_mode := QUOTE_IN_QUOTED_FIELD\<rparr>"
    using True assms(1)
    by (simp add: write_field_def step_open_quote[OF assms(2)] body step_close_quote)
  then show ?thesis by blast
next
  case False
  show ?thesis
  proof (cases s)
    case Nil
    have "foldl reader_step r (write_field s) = r\<lparr>cur_field := s, cur_mode := cur_mode r\<rparr>"
      using Nil False assms(1) by (simp add: write_field_def)
    moreover have "write_field s = []"
      using Nil by (simp add: write_field_def)
    ultimately show ?thesis by blast
  next
    case (Cons c cs)
    from False Cons have nc: "\<not> special c" and ncs: "\<not> list_ex special cs" by simp_all
    let ?q = "(add_char c r)\<lparr>cur_mode := IN_FIELD\<rparr>"
    have rest: "foldl reader_step ?q cs = ?q\<lparr>cur_field := cur_field ?q @ cs\<rparr>"
      by (rule unquoted_run[OF ncs]) simp
    have w: "write_field s = c # cs"
      using False Cons by (simp add: write_field_def)
    have "foldl reader_step r (write_field s) = foldl reader_step ?q cs"
      by (simp only: w foldl_Cons step_first_plain[OF assms(2) nc])
    also have "\<dots> = ?q\<lparr>cur_field := cur_field ?q @ cs\<rparr>"
      by (rule rest)
    also have "\<dots> = r\<lparr>cur_field := s, cur_mode := IN_FIELD\<rparr>"
      using Cons assms(1) by (simp add: add_char_def)
    finally show ?thesis by blast
  qed
qed

lemma write_field_comma:
  assumes "cur_field r = []"
    and "cur_mode r = START_FIELD \<or> cur_mode r = START_RECORD"
  shows "foldl reader_step r (write_field s @ [CHR '','']) =
           r\<lparr>cur_fields := cur_fields r @ [s], cur_mode := START_FIELD\<rparr>"
proof -
  from write_field_run[OF assms, of s] obtain m where
    run: "foldl reader_step r (write_field s) = r\<lparr>cur_field := s, cur_mode := m\<rparr>"
    and m: "m = IN_FIELD \<or> m = QUOTE_IN_QUOTED_FIELD \<or> (m = cur_mode r \<and> write_field s = [])"
    by blast
  let ?q = "r\<lparr>cur_field := s, cur_mode := m\<rparr>"
  have "cur_mode ?q \<noteq> IN_QUOTED_FIELD" "cur_mode ?q \<noteq> AFTER_CR"
    using m assms(2) by auto
  then have "reader_step ?q (CHR '','') = (save_field ?q)\<lparr>cur_mode := START_FIELD\<rparr>"
    by (rule step_comma)
  then show ?thesis
    using assms(1) by (simp add: run save_field_def)
qed

lemma write_field_crlf:
  assumes "cur_field r = []"
    and "cur_mode r = START_FIELD \<or> (cur_mode r = START_RECORD \<and> write_field s \<noteq> [])"
  shows "foldl reader_step r (write_field s @ [CR, LF]) =
           r\<lparr>done_records := done_records r @ [cur_fields r @ [s]], cur_fields := [],
             cur_mode := START_RECORD\<rparr>"
proof -
  from assms(2) have fresh: "cur_mode r = START_FIELD \<or> cur_mode r = START_RECORD" by blast
  from write_field_run[OF assms(1) fresh, of s] obtain m where
    run: "foldl reader_step r (write_field s) = r\<lparr>cur_field := s, cur_mode := m\<rparr>"
    and m: "m = IN_FIELD \<or> m = QUOTE_IN_QUOTED_FIELD \<or> (m = cur_mode r \<and> write_field s = [])"
    by blast
  let ?q = "r\<lparr>cur_field := s, cur_mode := m\<rparr>"
  have "cur_mode ?q = START_FIELD \<or> cur_mode ?q = IN_FIELD \<or> cur_mode ?q = QUOTE_IN_QUOTED_FIELD"
    using m assms(2) by auto
  then have cr: "reader_step ?q CR = end_record CR (save_field ?q)"
    by (rule step_cr)
  show ?thesis
    using assms(1) by (simp add: run cr step_lf_after_cr save_field_def end_record_def)
qed

text \<open>The fields of a row after the first, then a whole row, then the whole text.\<close>

lemma fields_run:
  assumes "fs \<noteq> []" "cur_field r = []" "cur_mode r = START_FIELD"
  shows "foldl reader_step r (join_fields (map write_field fs) @ [CR, LF]) =
           r\<lparr>done_records := done_records r @ [cur_fields r @ fs], cur_fields := [],
             cur_mode := START_RECORD\<rparr>"
  using assms
proof (induction fs arbitrary: r)
  case Nil
  then show ?case by simp
next
  case (Cons f fs)
  show ?case
  proof (cases fs)
    case Nil
    then show ?thesis
      using write_field_crlf[of r f] Cons.prems by simp
  next
    case (Cons g gs)
    let ?q = "r\<lparr>cur_fields := cur_fields r @ [f], cur_mode := START_FIELD\<rparr>"
    have head: "foldl reader_step r (write_field f @ [CHR '','']) = ?q"
      using Cons.prems by (intro write_field_comma) simp_all
    have tail: "foldl reader_step ?q (join_fields (map write_field fs) @ [CR, LF]) =
        ?q\<lparr>done_records := done_records ?q @ [cur_fields ?q @ fs], cur_fields := [],
          cur_mode := START_RECORD\<rparr>"
      using Cons.prems local.Cons by (intro Cons.IH) simp_all
    have split: "join_fields (map write_field (f # fs)) @ [CR, LF] =
        (write_field f @ [CHR '','']) @ (join_fields (map write_field fs) @ [CR, LF])"
      using local.Cons by simp
    have "foldl reader_step r (join_fields (map write_field (f # fs)) @ [CR, LF]) =
        foldl reader_step (foldl reader_step r (write_field f @ [CHR '','']))
          (join_fields (map write_field fs) @ [CR, LF])"
      by (simp only: split foldl_append)
    also have "\<dots> = foldl reader_step ?q (join_fields (map write_field fs) @ [CR, LF])"
      by (simp only: head)
    also note tail
    finally show ?thesis by simp
  qed
qed


lemma fields_text_PStr: "map (field_text ev) (map PStr fs) = fs"
  by (induction fs) (simp_all add: field_text_def)

lemma writerow_run:
  assumes "cur_mode r = START_RECORD" "cur_field r = []" "cur_fields r = []"
  shows "foldl reader_step r (writerow ev (map PStr fs)) = r\<lparr>done_records := done_records r @ [fs]\<rparr>"
proof (cases fs)
  case Nil
  have "reader_step r CR = end_record CR r"
    using assms(1) by (simp add: reader_step_def at_start_record_def)
  then show ?thesis
    using Nil assms by (simp add: writerow_def step_lf_after_cr end_record_def)
next
  case (Cons f gs)
  show ?thesis
  proof (cases gs)
    case Nil
    show ?thesis
    proof (cases "f = []")
      case True
      have "foldl reader_step r [DQ, DQ, CR, LF] = r\<lparr>done_records := done_records r @ [[[]]]\<rparr>"
        using assms
        by (simp add: step_open_quote step_close_quote step_cr step_lf_after_cr
            save_field_def end_record_def)
      then show ?thesis
        using True Nil \<open>fs = f # gs\<close> by (simp add: writerow_def field_text_def)
    next
      case False
      then have ne: "write_field f \<noteq> []" by (simp add: write_field_def)
      have "foldl reader_step r (write_field f @ [CR, LF]) =
          r\<lparr>done_records := done_records r @ [cur_fields r @ [f]], cur_fields := [],
            cur_mode := START_RECORD\<rparr>"
        using assms ne by (intro write_field_crlf) simp_all
      then show ?thesis
        using False Nil \<open>fs = f # gs\<close> assms by (simp add: writerow_def field_text_def)
    qed
  next
    case (Cons g hs)
    let ?q = "r\<lparr>cur_fields := cur_fields r @ [f], cur_mode := START_FIELD\<rparr>"
    have head: "foldl reader_step r (write_field f @ [CHR '','']) = ?q"
      using assms by (intro write_field_comma) simp_all
    have tail: "foldl reader_step ?q (join_fields (map write_field gs) @ [CR, LF]) =
        ?q\<lparr>done_records := done_records ?q @ [cur_fields ?q @ gs], cur_fields := [],
          cur_mode := START_RECORD\<rparr>"
      using assms Cons by (intro fields_run) simp_all
    have shape: "writerow ev (map PStr fs) =
        (write_field f @ [CHR '','']) @ (join_fields (map write_field gs) @ [CR, LF])"
    proof -
      have "writerow ev (map PStr fs) = join_fields (map write_field fs) @ [CR, LF]"
        using Cons \<open>fs = f # gs\<close> by (simp only: writerow_def fields_text_PStr Let_def) simp
      then show ?thesis
        using Cons \<open>fs = f # gs\<close> by simp
    qed
    have "foldl reader_step r (writerow ev (map PStr fs)) =
        foldl reader_step (foldl reader_step r (write_field f @ [CHR '','']))
          (join_fields (map write_field gs) @ [CR, LF])"
      by (simp only: shape foldl_append)
    also have "\<dots> = foldl reader_step ?q (join_fields (map write_field gs) @ [CR, LF])"
      by (simp only: head)
    also note tail
    finally show ?thesis
      using assms \<open>fs = f # gs\<close> by simp
  qed
qed

lemma rows_run:
  assumes "cur_mode r = START_RECORD" "cur_field r = []" "cur_fields r = []"
  shows "foldl reader_step r (concat (map (writerow ev) (map (map PStr) rows))) =
           r\<lparr>done_records := done_records r @ rows\<rparr>"
  using assms
proof (induction rows arbitrary: r)
  case Nil
  then show ?case by simp
next
  case (Cons row rows)
  let ?q = "r\<lparr>done_records := done_records r @ [row]\<rparr>"
  have one: "foldl reader_step r (writerow ev (map PStr row)) = ?q"
    using Cons.prems by (rule writerow_run)
  have more: "foldl reader_step ?q (concat (map (writerow ev) (map (map PStr) rows))) =
      ?q\<lparr>done_records := done_records ?q @ rows\<rparr>"
    using Cons.prems by (intro Cons.IH) simp_all
  have "foldl reader_step r (concat (map (writerow ev) (map (map PStr) (row # rows)))) =
      foldl reader_step (foldl reader_step r (writerow ev (map PStr row)))
        (concat (map (writerow ev) (map (map PStr) rows)))"
    by (simp only: list.map concat.simps foldl_append)
  also have "\<dots> = foldl reader_step ?q (concat (map (writerow ev) (map (map PStr) rows)))"
    by (simp only: one)
  also note more
  finally show ?case by simp
qed

text \<open>
  Claim C9. For every sequence of rows whose cells are strings, reading back what the
  writer wrote gives the header followed by the rows, cell for cell and in order: commas,
  quote characters, carriage returns and newlines inside a cell come back unchanged.
\<close>

theorem csv_round_trip:
  "csv_reader (csv_text ev (map (map PStr) rows)) = header # rows"
proof -
  have "csv_text ev (map (map PStr) rows) = concat (map (writerow ev) (map (map PStr) (header # rows)))"
    by (simp add: csv_text_def csv_lines_def)
  moreover have "foldl reader_step reader_init (concat (map (writerow ev) (map (map PStr) (header # rows)))) =
      reader_init\<lparr>done_records := done_records reader_init @ (header # rows)\<rparr>"
    by (rule rows_run) (simp_all add: reader_init_def)
  ultimately show ?thesis
    by (simp add: csv_reader_def reader_finish_def reader_init_def)
qed

text \<open>The round trip of claim C9 on cells with a comma, a quote and a line break.\<close>

theorem csv_round_trip_witness:
  "csv_reader (csv_text demo_env [[PStr ''a,b'', PStr [CHR ''x'', DQ, CHR ''y''], PStr [CR, LF], PStr []]]) =
     [header, [''a,b'', [CHR ''x'', DQ, CHR ''y''], [CR, LF], []]]"
  using csv_round_trip[of demo_env "[[''a,b'', [CHR ''x'', DQ, CHR ''y''], [CR, LF], []]]"]
  by simp

section \<open>The transform\<close>

lemma write_header_only:
  "write_lines ev (csv_lines ev []) [] =
     (None,
      ''url,resource_id,last_updated,status,system_id,active,first_name,last_name,phone,gender,address''
        @ [CR, LF])"
  by code_simp

lemma extract_rows_no_entry: "map_of kvs ''entry'' = None \<Longrightarrow> extract_rows ev (PDict kvs) = Inr []"
  by (simp add: extract_rows_def then_do_def)

text \<open>
  Claim C1. When the input file parses to the bundle of the scenario, the function
  writes to the output file the header row of eleven columns followed by exactly one row,
  \<^verbatim>\<open>u1,p1,,,,True,Ann,['Lee'],555-1234,female,1 Main St\<close>, the family name in its
  list rendering. (Where the output file cannot be created, line 90 raises OSError and
  nothing is written.)
\<close>

theorem scenario_csv:
  assumes "fs (canonical input_file) = Some content" and "loads ev content = Inr scenario_bundle"
  shows "parse_patient_data ev input_file output_file fs =
           (if can_create ev output_file
            then (None, fs(canonical output_file \<mapsto>
              ''url,resource_id,last_updated,status,system_id,active,first_name,last_name,phone,gender,address''
                @ [CR, LF]
              @ ''u1,p1,,,,True,Ann,['' @ [CHR 0x27] @ ''Lee'' @ [CHR 0x27] @ ''],555-1234,female,1 Main St''
                @ [CR, LF]))
            else (Some OSError, fs))"
proof -
  let ?row = "[PStr ''u1'', PStr ''p1'', PStr [], PStr [], PNone, PBool True, PStr ''Ann'',
               PList [PStr ''Lee''], PStr ''555-1234'', PStr ''female'', PStr ''1 Main St'']"
  have rows: "extract_rows ev scenario_bundle = Inr [?row]"
    by code_simp
  have csv: "write_lines ev (csv_lines ev [?row]) [] =
      (None,
       ''url,resource_id,last_updated,status,system_id,active,first_name,last_name,phone,gender,address''
         @ [CR, LF]
       @ ''u1,p1,,,,True,Ann,['' @ [CHR 0x27] @ ''Lee'' @ [CHR 0x27] @ ''],555-1234,female,1 Main St''
         @ [CR, LF])"
    by code_simp
  show ?thesis
    using assms by (simp add: parse_patient_data_def write_csv_def then_do_def rows csv)
qed

text \<open>
  The scenario with a file \<^verbatim>\<open>u1.json\<close> that the parser reads as the bundle, where
  the output can be created and where it cannot.
\<close>

theorem scenario_csv_witness:
  "parse_patient_data (reading scenario_bundle True) ''u1.json'' ''/processed/u1.csv''
     [''u1.json'' \<mapsto> ''bundle''] =
   (None,
    [''u1.json'' \<mapsto> ''bundle'',
     ''/processed/u1.csv'' \<mapsto>
       ''url,resource_id,last_updated,status,system_id,active,first_name,last_name,phone,gender,address''
         @ [CR, LF]
       @ ''u1,p1,,,,True,Ann,['' @ [CHR 0x27] @ ''Lee'' @ [CHR 0x27] @ ''],555-1234,female,1 Main St''
         @ [CR, LF]]) \<and>
   parse_patient_data (reading scenario_bundle False) ''u1.json'' ''/processed/u1.csv''
     [''u1.json'' \<mapsto> ''bundle''] =
   (Some OSError, [''u1.json'' \<mapsto> ''bundle''])"
proof -
  have c: "canonical ''u1.json'' = ''u1.json''" "canonical ''/processed/u1.csv'' = ''/processed/u1.csv''"
    by code_simp+
  show ?thesis
    using scenario_csv[where fs = "[''u1.json'' \<mapsto> ''bundle'']" and input_file = "''u1.json''"
        and content = "''bundle''" and ev = "reading scenario_bundle True"
        and output_file = "''/processed/u1.csv''"]
      scenario_csv[where fs = "[''u1.json'' \<mapsto> ''bundle'']" and input_file = "''u1.json''"
        and content = "''bundle''" and ev = "reading scenario_bundle False"
        and output_file = "''/processed/u1.csv''"]
    by (simp add: c reading_def demo_env_def)
qed

text \<open>
  Claim C2 (the program at an input where it departs from the claim). A patient resource
  with no \<^verbatim>\<open>name\<close> key: line 82 takes the default \<^verbatim>\<open>{}\<close> and indexes it with
  \<^verbatim>\<open>[0]\<close>, which raises KeyError, so no row and no output are produced. The
  lookups of \<^verbatim>\<open>telecom\<close> and \<^verbatim>\<open>address\<close> take the default \<^verbatim>\<open>[{}]\<close> and do
  give an empty cell: a patient that has a name and nothing else yields a row, whose
  family-name cell is the list \<^verbatim>\<open>['']\<close>.
\<close>

theorem missing_name_raises:
  "extract_rows ev (bundle_of [patient_without_name]) = Inl KeyError \<and>
   extract_rows ev (bundle_of [patient_with_name_only]) =
     Inr [[PStr ''u2'', PStr [], PStr [], PStr [], PNone, PBool False, PStr [],
           PList [PStr []], PStr [], PStr [], PStr []]]"
  by code_simp


text \<open>
  Claim C6 as stated fails: a document with no \<^verbatim>\<open>entry\<close> field is processed as
  one with zero entries, and the function returns normally.
\<close>

theorem no_entry_field_no_error:
  "parse_patient_data (reading (PDict [(''resourceType'', PStr ''Bundle'')]) True)
     ''b.json'' ''/processed/b.csv'' [''b.json'' \<mapsto> ''bundle''] =
   (None,
    [''b.json'' \<mapsto> ''bundle'',
     ''/processed/b.csv'' \<mapsto>
       ''url,resource_id,last_updated,status,system_id,active,first_name,last_name,phone,gender,address''
         @ [CR, LF]])"
proof -
  let ?ev = "reading (PDict [(''resourceType'', PStr ''Bundle'')]) True"
  have rows: "extract_rows ?ev (PDict [(''resourceType'', PStr ''Bundle'')]) = Inr []"
    by code_simp
  have c: "canonical ''b.json'' = ''b.json''" "canonical ''/processed/b.csv'' = ''/processed/b.csv''"
    by code_simp+
  have l: "loads ?ev ''bundle'' = Inr (PDict [(''resourceType'', PStr ''Bundle'')])"
    "can_create ?ev ''/processed/b.csv''"
    by (simp_all add: reading_def demo_env_def)
  show ?thesis
    by (simp add: parse_patient_data_def write_csv_def then_do_def rows c l write_header_only)
qed

text \<open>
  Claim C6, amended. For every parsed document that is a JSON object with no
  \<^verbatim>\<open>entry\<close> key, the function reports no structural error: it goes on as if the
  document held zero entries and writes the header row only. (Where the output file
  cannot be created, line 90 raises OSError, whatever the document.)
\<close>

theorem no_entry_field_header_only:
  assumes "fs (canonical input_file) = Some content" and "loads ev content = Inr (PDict kvs)"
    and "map_of kvs ''entry'' = None"
  shows "parse_patient_data ev input_file output_file fs =
           (if can_create ev output_file
            then (None, fs(canonical output_file \<mapsto>
              ''url,resource_id,last_updated,status,system_id,active,first_name,last_name,phone,gender,address''
                @ [CR, LF]))
            else (Some OSError, fs))"
  using assms(1,2) extract_rows_no_entry[OF assms(3), of ev]
  by (simp add: parse_patient_data_def write_csv_def then_do_def write_header_only)

theorem no_entry_field_header_only_witness:
  "parse_patient_data (reading (PDict [(''id'', PStr ''b1'')]) True) ''n.json'' ''/processed/n.csv''
     [''n.json'' \<mapsto> ''bundle''] =
   (None,
    [''n.json'' \<mapsto> ''bundle'',
     ''/processed/n.csv'' \<mapsto>
       ''url,resource_id,last_updated,status,system_id,active,first_name,last_name,phone,gender,address''
         @ [CR, LF]])"
proof -
  have c: "canonical ''n.json'' = ''n.json''" "canonical ''/processed/n.csv'' = ''/processed/n.csv''"
    by code_simp+
  show ?thesis
    using no_entry_field_header_only[where fs = "[''n.json'' \<mapsto> ''bundle'']"
        and input_file = "''n.json''" and content = "''bundle''"
        and ev = "reading (PDict [(''id'', PStr ''b1'')]) True"
        and kvs = "[(''id'', PStr ''b1'')]" and output_file = "''/processed/n.csv''"]
    by (simp add: c reading_def demo_env_def)
qed

text \<open>
  Claim C7 (the program at inputs where it departs from the claim). A patient entry
  alone yields its row. Put after an entry without a resource, or after an entry whose
  resource is an Observation, it is never reached: the diagnostic of the skipped entry
  raises NameError and the extraction of the whole document fails.
\<close>

theorem skipped_entry_raises:
  "extract_rows ev (bundle_of [patient_with_name_only]) =
     Inr [[PStr ''u2'', PStr [], PStr [], PStr [], PNone, PBool False, PStr [],
           PList [PStr []], PStr [], PStr [], PStr []]] \<and>
   extract_rows ev (bundle_of [entry_without_resource, patient_with_name_only]) = Inl NameError \<and>
   extract_rows ev (bundle_of [observation_entry, patient_with_name_only]) = Inl NameError"
  by code_simp

text \<open>
  Claim C10 as stated fails: with the input path absent, the function still opens the
  output file, and where that file cannot be created line 90 raises OSError.
\<close>

theorem missing_input_open_fails:
  "fst (parse_patient_data (reading scenario_bundle False) ''gone.json'' ''/nodir/gone.csv''
          Map.empty) = Some OSError \<and>
   snd (parse_patient_data (reading scenario_bundle False) ''gone.json'' ''/nodir/gone.csv''
          Map.empty) ''/nodir/gone.csv'' = None"
  by code_simp

text \<open>
  Claim C10, amended. If the input path is absent from local storage and the output file
  can be created, the function does not raise and signals no error: it returns normally
  and the output file holds the header row only.
\<close>

theorem missing_input_header_only:
  assumes "fs (canonical input_file) = None" and "can_create ev output_file"
  shows "parse_patient_data ev input_file output_file fs =
           (None, fs(canonical output_file \<mapsto>
             ''url,resource_id,last_updated,status,system_id,active,first_name,last_name,phone,gender,address''
               @ [CR, LF]))"
  using assms by (simp add: parse_patient_data_def write_csv_def write_header_only)

theorem missing_input_header_only_witness:
  "parse_patient_data (reading scenario_bundle True) ''gone.json'' ''/processed/gone.csv'' Map.empty =
   (None,
    [''/processed/gone.csv'' \<mapsto>
       ''url,resource_id,last_updated,status,system_id,active,first_name,last_name,phone,gender,address''
         @ [CR, LF]])"
proof -
  have c: "canonical ''/processed/gone.csv'' = ''/processed/gone.csv''"
    by code_simp
  show ?thesis
    using missing_input_header_only[where fs = Map.empty and input_file = "''gone.json''"
        and ev = "reading scenario_bundle True" and output_file = "''/processed/gone.csv''"]
    by (simp add: c reading_def demo_env_def)
qed

section \<open>The queue and the worker loop\<close>

text \<open>
  Whatever the message and the collaborators, the body of the \<^verbatim>\<open>try\<close> does not get
  past line 112: it raises the exception of the parser of the body, or AttributeError,
  and changes nothing. So every message is made visible again and none is deleted.
\<close>

lemma try_body_raises:
  "try_body ev m w =
     (case loads ev (body m) of Inl e \<Rightarrow> (Some e, w) | Inr c \<Rightarrow> (Some AttributeError, w))"
  by (simp add: try_body_def urllib_unquote_plus_def split: sum.splits)

lemma process_item_requeues:
  "calls (snd (process_item ev m w)) = calls w @ [ChangeVisibility (handle m) 0]"
  by (simp add: process_item_def try_body_raises split: sum.splits)


text \<open>
  Claim C4 (the program at an input where it departs from the claim). Line 119 passes
  the full output path to \<^verbatim>\<open>cleanup_files\<close>, and line 128 puts \<^verbatim>\<open>output_dir\<close> in
  front of it once more. Called as line 119 calls it for the key \<^verbatim>\<open>x.json\<close>, with
  both files in local storage, the function removes the input file and then raises
  OSError for \<^verbatim>\<open>/processed//processed/x.csv\<close>; the output file
  \<^verbatim>\<open>/processed/x.csv\<close> stays.
\<close>

theorem cleanup_leaves_output:
  "fst (cleanup_files ''x.json'' ''/processed/x.csv'' storage_before_cleanup) = Some OSError \<and>
   snd (cleanup_files ''x.json'' ''/processed/x.csv'' storage_before_cleanup) ''x.json'' = None \<and>
   snd (cleanup_files ''x.json'' ''/processed/x.csv'' storage_before_cleanup) ''/processed/x.csv'' =
     Some ''csv''"
  by code_simp

text \<open>
  Claim C8 as stated fails: an exception raised while receiving messages is outside
  every \<^verbatim>\<open>try\<close> and leaves the loop in its first pass.
\<close>

theorem worker_loop_receive_error:
  "fst (worker_loop failing_queue_env 1 empty_world) = Some ClientError"
  by code_simp

lemma process_item_no_raise:
  "change_visibility ev (handle m) = None \<Longrightarrow> delete ev (handle m) = None \<Longrightarrow>
     fst (process_item ev m w) = None"
  by (simp add: process_item_def split: prod.splits option.splits)

lemma process_batch_no_raise:
  "(\<And>h. change_visibility ev h = None) \<Longrightarrow> (\<And>h. delete ev h = None) \<Longrightarrow>
     fst (process_batch ev ms w) = None"
proof (induction ms arbitrary: w)
  case Nil
  then show ?case by simp
next
  case (Cons m ms)
  obtain r w1 where pi: "process_item ev m w = (r, w1)"
    by (cases "process_item ev m w")
  have "r = None"
    using process_item_no_raise[of ev m w] Cons.prems pi by simp
  then show ?case
    using pi Cons.IH[of w1] Cons.prems by simp
qed

text \<open>
  Claim C8, amended. Every exception raised by the steps of an item (decoding the body,
  download, transform, upload, cleanup) is caught at the item. Provided that receiving a
  batch, \<^verbatim>\<open>change_visibility\<close> and \<^verbatim>\<open>delete\<close> do not raise, no exception leaves
  the loop: after any number of passes it is still running.
\<close>

theorem worker_loop_runs_on:
  assumes "\<forall>k. \<exists>ms. receive_messages ev k = Inr ms"
    and "\<forall>h. change_visibility ev h = None" and "\<forall>h. delete ev h = None"
  shows "fst (worker_loop ev n w) = None"
proof (induction n arbitrary: w)
  case 0
  show ?case by simp
next
  case (Suc n)
  from assms(1) obtain ms where ms: "receive_messages ev (polls w) = Inr ms"
    by blast
  let ?w = "w\<lparr>polls := Suc (polls w)\<rparr>"
  obtain r w1 where pb: "process_batch ev ms ?w = (r, w1)"
    by (cases "process_batch ev ms ?w")
  have "r = None"
    using process_batch_no_raise[of ev ms ?w] assms(2,3) pb by simp
  then have "process_data ev w = (None, w1)"
    using ms pb by (simp add: process_data_def get_messages_from_sqs_def)
  then show ?case
    using Suc.IH[of w1] by simp
qed

text \<open>Three passes, one message each: three messages made visible again.\<close>

theorem worker_loop_runs_on_witness:
  "fst (worker_loop failing_download_env 3 empty_world) = None \<and>
   calls (snd (worker_loop failing_download_env 3 empty_world)) =
     [ChangeVisibility 0 0, ChangeVisibility 1 0, ChangeVisibility 2 0]"
proof -
  have "fst (worker_loop failing_download_env 3 empty_world) = None"
    using worker_loop_runs_on[of failing_download_env 3 empty_world]
    by (simp add: failing_download_env_def demo_env_def)
  moreover have "calls (snd (worker_loop failing_download_env 3 empty_world)) =
      [ChangeVisibility 0 0, ChangeVisibility 1 0, ChangeVisibility 2 0]"
    by code_simp
  ultimately show ?thesis by simp
qed

end
